theory Spec2Isabelle
  imports
    Main
    "HOL-Library.Multiset"
    "HOL-Library.Sublist"
    "HOL-Library.Char_ord"
    "HOL-Library.List_Lexorder"
begin

section \<open>Configuration and constants (app.py, lines 28-75)\<close>

text \<open>
  A Python \<open>str\<close> is modelled as a \<^typ>\<open>string\<close>: one \<^typ>\<open>char\<close> of the model stands
  for one character of the Python string, so \<^term>\<open>length\<close> is Python's \<open>len\<close> and the
  order of \<^typ>\<open>string\<close> (lexicographic, by character code) is Python's order on \<open>str\<close>.
\<close>

definition CHARS_PER_TOKEN :: nat where
  "CHARS_PER_TOKEN = 4"

definition MAX_FILE_SIZE_BYTES :: nat where
  "MAX_FILE_SIZE_BYTES = 1000000"

abbreviation NL :: char where
  "NL \<equiv> CHR 0x0A"

definition EXTENSION_MAP :: "(string \<times> string) list" where
  "EXTENSION_MAP =
    [(''.py'', ''python''), (''.pyi'', ''python''), (''.pyx'', ''python''), (''.ipynb'', ''json''),
     (''.js'', ''javascript''), (''.jsx'', ''javascript''), (''.ts'', ''typescript''),
     (''.tsx'', ''typescript''), (''.html'', ''html''), (''.css'', ''css''), (''.scss'', ''scss''),
     (''.vue'', ''vue''), (''.svelte'', ''svelte''),
     (''.java'', ''java''), (''.kt'', ''kotlin''), (''.scala'', ''scala''), (''.gradle'', ''groovy''),
     (''.c'', ''c''), (''.h'', ''c''), (''.cpp'', ''cpp''), (''.hpp'', ''cpp''), (''.rs'', ''rust''),
     (''.go'', ''go''),
     (''.sh'', ''bash''), (''.bash'', ''bash''), (''.zsh'', ''zsh''), (''.lua'', ''lua''),
     (''.rb'', ''ruby''), (''.php'', ''php''),
     (''.json'', ''json''), (''.yaml'', ''yaml''), (''.yml'', ''yaml''), (''.toml'', ''toml''),
     (''.xml'', ''xml''), (''.sql'', ''sql''), (''.md'', ''markdown''), (''.txt'', ''text''),
     (''Dockerfile'', ''dockerfile''), (''.tf'', ''hcl'')]"

text \<open>
  \<open>IGNORE_PATTERNS\<close> is a Python set. Its members are listed here in the order of the
  source text; Python iterates a set of strings in an order of its own choosing.
\<close>

definition IGNORE_PATTERNS :: "string list" where
  "IGNORE_PATTERNS =
    [''.git'', ''.svn'', ''.hg'',
     ''node_modules'', ''venv'', ''.venv'', ''env'', ''dist'', ''build'', ''target'',
     ''__pycache__'', ''.pytest_cache'', ''.mypy_cache'', ''vendor'',
     ''*.png'', ''*.jpg'', ''*.jpeg'', ''*.gif'', ''*.ico'', ''*.svg'', ''*.pdf'',
     ''*.zip'', ''*.tar'', ''*.gz'', ''*.7z'', ''*.rar'',
     ''*.exe'', ''*.dll'', ''*.so'', ''*.dylib'', ''*.class'', ''*.jar'',
     ''*.db'', ''*.sqlite'', ''*.sqlite3'', ''*.pyc'',
     ''package-lock.json'', ''yarn.lock'', ''pnpm-lock.yaml'', ''Gemfile.lock'']"

section \<open>Exceptions and paths\<close>

datatype py_error = ValueError | OSError | UnicodeDecodeError

text \<open>
  A resolved \<open>pathlib.Path\<close> is the list of its parts below the filesystem root:
  \<open>/home/u/a.py\<close> is \<open>[''home'', ''u'', ''a.py'']\<close>. No part is empty or contains a
  slash.
\<close>

type_synonym pypath = "string list"

fun join :: "string \<Rightarrow> string list \<Rightarrow> string" where
  "join sep [] = []"
| "join sep [x] = x"
| "join sep (x # y # ys) = x @ sep @ join sep (y # ys)"

definition path_str :: "pypath \<Rightarrow> string" where
  \<comment> \<open>\<open>str(p)\<close> of an absolute path\<close>
  "path_str p = ''/'' @ join ''/'' p"

definition relative_to :: "pypath \<Rightarrow> pypath \<Rightarrow> py_error + pypath" where
  \<comment> \<open>\<open>p.relative_to(root)\<close> raises ValueError when \<open>p\<close> does not lie under \<open>root\<close>\<close>
  "relative_to p root =
     (if prefix root p then Inr (drop (length root) p) else Inl ValueError)"

definition as_posix :: "pypath \<Rightarrow> string" where
  \<comment> \<open>\<open>as_posix()\<close> of a relative path; the empty relative path prints as a dot\<close>
  "as_posix rel = (if rel = [] then ''.'' else join ''/'' rel)"

definition path_name :: "pypath \<Rightarrow> string" where
  \<comment> \<open>\<open>p.name\<close>: the last part, the empty string for the root\<close>
  "path_name p = (if p = [] then [] else last p)"

fun rfind_dot :: "string \<Rightarrow> nat option" where
  \<comment> \<open>\<open>name.rfind('.')\<close>, with \<open>None\<close> for Python's \<open>-1\<close>\<close>
  "rfind_dot [] = None"
| "rfind_dot (c # cs) =
     (case rfind_dot cs of
        Some i \<Rightarrow> Some (Suc i)
      | None \<Rightarrow> if c = CHR ''.'' then Some 0 else None)"

definition path_suffix :: "pypath \<Rightarrow> string" where
  \<comment> \<open>\<open>p.suffix\<close>: from the last dot of the name, when that dot is neither its first nor its last character\<close>
  "path_suffix p =
     (let name = path_name p in
      case rfind_dot name of
        None \<Rightarrow> []
      | Some i \<Rightarrow> if 0 < i \<and> i < length name - 1 then drop i name else [])"

definition lower_char :: "char \<Rightarrow> char" where
  "lower_char c =
     (let n = (of_char c :: nat) in
      if 65 \<le> n \<and> n \<le> 90 then char_of (n + 32) else c)"

definition lower :: "string \<Rightarrow> string" where
  \<comment> \<open>\<open>str.lower()\<close> on the letters A to Z\<close>
  "lower s = map lower_char s"

section \<open>Data structures (app.py, lines 81-101)\<close>

record FileArtifact =
  path :: pypath
  relative_path :: string
  extension :: string
  language :: string
  size_bytes :: nat
  lines :: nat
  content :: string
  token_estimate :: nat
  is_truncated :: bool

record ProjectSummary =
  total_files :: nat
  total_lines :: nat
  total_tokens :: nat
  file_tree :: string
  artifacts :: "FileArtifact list"

section \<open>FileProcessor (app.py, lines 200-260)\<close>

text \<open>
  What the operating system answers for one path: the size that \<open>stat\<close> reports (or the
  error it raises), and the content of the file as characters: the original content
  decoded as UTF-8 (or \<open>UnicodeDecodeError\<close>, or \<open>OSError\<close>), and the content decoded
  with \<open>errors='replace'\<close>.
\<close>

record file_io =
  st_size :: "py_error + nat"
  decoded_strict :: "py_error + string"
  decoded_replace :: "py_error + string"

abbreviation CR :: char where
  "CR \<equiv> CHR 0x0D"

text \<open>
  Both \<open>open\<close> calls (lines 229 and 238) read in text mode with the default
  \<open>newline=None\<close>: what \<open>read\<close> and \<open>readlines\<close> return has every carriage return
  followed by a line feed, and every other carriage return, replaced by one line feed.
\<close>

fun universal_newlines :: "string \<Rightarrow> string" where
  "universal_newlines [] = []"
| "universal_newlines [c] = [if c = CR then NL else c]"
| "universal_newlines (c # d # ds) =
     (if c = CR \<and> d = NL then NL # universal_newlines ds
      else if c = CR then NL # universal_newlines (d # ds)
      else c # universal_newlines (d # ds))"

definition read_strict :: "file_io \<Rightarrow> py_error + string" where
  \<comment> \<open>\<open>open(path, 'r', encoding='utf-8')\<close> and \<open>f.read()\<close>\<close>
  "read_strict f =
     (case decoded_strict f of
        Inl e \<Rightarrow> Inl e
      | Inr orig \<Rightarrow> Inr (universal_newlines orig))"

definition read_replace :: "file_io \<Rightarrow> py_error + string" where
  \<comment> \<open>\<open>open(path, 'r', encoding='utf-8', errors='replace')\<close>, the text that \<open>readlines\<close> cuts\<close>
  "read_replace f =
     (case decoded_replace f of
        Inl e \<Rightarrow> Inl e
      | Inr orig \<Rightarrow> Inr (universal_newlines orig))"

fun readlines :: "string \<Rightarrow> string list" where
  \<comment> \<open>\<open>f.readlines()\<close>: the text cut after every newline, each line keeping its newline\<close>
  "readlines [] = []"
| "readlines (c # cs) =
     (if c = NL then [c] # readlines cs
      else case readlines cs of
             [] \<Rightarrow> [[c]]
           | l # ls \<Rightarrow> (c # l) # ls)"

definition last_lines :: "nat \<Rightarrow> string list \<Rightarrow> string list" where
  \<comment> \<open>the slice \<open>lines[-n:]\<close> for positive \<open>n\<close>\<close>
  "last_lines n ls = drop (length ls - n) ls"

definition digit_char :: "nat \<Rightarrow> char" where
  "digit_char d = ''0123456789'' ! d"

function str_nat :: "nat \<Rightarrow> string" where
  "str_nat n = (if n < 10 then [digit_char n] else str_nat (n div 10) @ [digit_char (n mod 10)])"
  by pat_completeness auto
termination
  by (relation "measure id") auto

declare str_nat.simps [simp del]

definition truncation_warning :: "nat \<Rightarrow> string" where
  "truncation_warning sz =
     ''<!-- WARNING: File too large ('' @ str_nat sz @ '' bytes). '' @
     ''Truncated to last 1000 lines for context. -->'' @ [NL, NL]"

definition count_char :: "char \<Rightarrow> string \<Rightarrow> nat" where
  \<comment> \<open>\<open>s.count(c)\<close> for a one-character \<open>c\<close>\<close>
  "count_char c s = length (filter (\<lambda>x. x = c) s)"

definition detect_language :: "string \<Rightarrow> string \<Rightarrow> string" where
  "detect_language ext name =
     (let lang = (case map_of EXTENSION_MAP ext of Some l \<Rightarrow> l | None \<Rightarrow> ''text'');
          lang = (if name = ''dockerfile'' then ''dockerfile'' else lang);
          lang = (if name = ''makefile'' then ''makefile'' else lang)
      in lang)"

definition read_content :: "file_io \<Rightarrow> nat \<Rightarrow> (string \<times> bool) option" where
  \<comment> \<open>lines 221-242: the content and the truncation flag, \<open>None\<close> where the source returns \<open>None\<close>\<close>
  "read_content f sz =
     (if sz > MAX_FILE_SIZE_BYTES then
        (case read_replace f of
           Inl e \<Rightarrow> None
         | Inr txt \<Rightarrow>
             Some (truncation_warning sz @ concat (last_lines 1000 (readlines txt)), True))
      else
        (case read_strict f of
           Inl e \<Rightarrow> None
         | Inr txt \<Rightarrow> Some (txt, False)))"

definition process :: "(pypath \<Rightarrow> file_io) \<Rightarrow> pypath \<Rightarrow> pypath \<Rightarrow> FileArtifact option" where
  \<comment> \<open>every exception of the body is caught (lines 234, 240, 258) and becomes \<open>None\<close>\<close>
  "process fs p root =
     (case st_size (fs p) of
        Inl e \<Rightarrow> None
      | Inr sz \<Rightarrow>
          if sz = 0 then None
          else
            (case relative_to p root of
               Inl e \<Rightarrow> None
             | Inr rel \<Rightarrow>
                 let rel_path = as_posix rel;
                     ext = lower (path_suffix p);
                     name = lower (path_name p);
                     lang = detect_language ext name
                 in (case read_content (fs p) sz of
                       None \<Rightarrow> None
                     | Some (txt, trunc) \<Rightarrow>
                         Some \<lparr> path = p,
                                relative_path = rel_path,
                                extension = ext,
                                language = lang,
                                size_bytes = sz,
                                lines = count_char NL txt + 1,
                                content = txt,
                                token_estimate = length txt div CHARS_PER_TOKEN,
                                is_truncated = trunc \<rparr>)))"

section \<open>The compiled ignore rules (the pathspec library behind lines 128 and 141)\<close>

text \<open>
  Modelled from the spec: the pattern compiler and the matcher that the scanner calls
  (\<open>PathSpec.from_lines\<close> with the git wildcard syntax, and \<open>match_file\<close>) belong to a
  library that is not part of the source tree. The definitions of this section follow
  the spec's sections 3, 4.1 and 6: one rule per line, blank lines and comment lines
  compile to no rule, a leading \<open>!\<close> negates, a trailing slash makes a rule apply below a
  directory only, a pattern with a leading or an inner slash is anchored to the root and
  any other pattern matches at any depth, \<open>*\<close> matches within one path segment and \<open>**\<close>
  across segments; the rules are evaluated in order and the last rule that matches
  decides. The scanner asks about a directory by its path without a trailing slash, as
  it does about a file. Bracket expressions and backslash escapes, which the spec does
  not list, are read as ordinary characters.
\<close>

record IgnoreRule =
  raw :: string
  negated :: bool
  dir_only :: bool
  anchored :: bool
  segs :: "string list"

definition isspace :: "char \<Rightarrow> bool" where
  \<comment> \<open>Modelled from the spec: the white space that surrounds a pattern on its line\<close>
  "isspace c = (c \<in> set [CHR '' '', CHR 0x09, CHR 0x0A, CHR 0x0B, CHR 0x0C, CHR 0x0D])"

definition strip :: "string \<Rightarrow> string" where
  \<comment> \<open>Modelled from the spec: a pattern is its line without the surrounding white space\<close>
  "strip s = rev (dropWhile isspace (rev (dropWhile isspace s)))"

fun split :: "char \<Rightarrow> string \<Rightarrow> string list" where
  \<comment> \<open>\<open>s.split(sep)\<close>: the pieces between the separators, empty pieces kept\<close>
  "split sep [] = [[]]"
| "split sep (c # cs) =
     (if c = sep then [] # split sep cs
      else case split sep cs of
             [] \<Rightarrow> [[c]]
           | l # ls \<Rightarrow> (c # l) # ls)"

fun glob :: "string \<Rightarrow> string \<Rightarrow> bool" where
  \<comment> \<open>Modelled from the spec: a pattern segment against one path segment; \<open>*\<close> stands for
      any run of characters, \<open>?\<close> for any one character\<close>
  "glob [] s = (s = [])"
| "glob (p # ps) [] = (p = CHR ''*'' \<and> glob ps [])"
| "glob (p # ps) (c # cs) =
     (if p = CHR ''*'' then glob ps (c # cs) \<or> glob (p # ps) cs
      else if p = CHR ''?'' then glob ps cs
      else p = c \<and> glob ps cs)"

definition match_seg :: "string \<Rightarrow> string \<Rightarrow> bool" where
  \<comment> \<open>Modelled from the spec: a segment that is a lone \<open>*\<close> matches any non-empty segment\<close>
  "match_seg pat name = (if pat = ''*'' then name \<noteq> [] else glob pat name)"

fun match_segs :: "string list \<Rightarrow> string list \<Rightarrow> bool" where
  \<comment> \<open>Modelled from the spec: normalised pattern segments against the segments of a
      path. A last \<open>**\<close> needs at least one more segment, any other \<open>**\<close> skips any
      number of segments, and a path below a matched path is matched\<close>
  "match_segs [] f = (f = [])"
| "match_segs (s # ss) f =
     (if s = ''**'' then
        (if ss = [] then f \<noteq> [] else list_ex (match_segs ss) (suffixes f))
      else
        (case f of
           [] \<Rightarrow> False
         | x # xs \<Rightarrow> match_seg s x \<and> (ss = [] \<or> match_segs ss xs)))"

fun collapse :: "string list \<Rightarrow> string list" where
  \<comment> \<open>Modelled from the spec: a run of \<open>**\<close> segments counts as one\<close>
  "collapse (a # b # xs) =
     (if a = ''**'' \<and> b = ''**'' then collapse (b # xs) else a # collapse (b # xs))"
| "collapse xs = xs"

definition normalize_segs :: "string list \<Rightarrow> string list" where
  \<comment> \<open>Modelled from the spec: a leading empty segment (leading slash) anchors and is
      dropped; a lone segment, with or without a trailing slash, matches at any depth,
      which is a \<open>**\<close> in front; a trailing empty segment (trailing slash) becomes a
      \<open>**\<close>, everything below the directory; the pattern \<open>**/\<close> is everything below
      any directory, the paths of two segments or more\<close>
  "normalize_segs ss0 =
     (let ss1 = collapse ss0;
          ss2 = (case ss1 of
                   [] \<Rightarrow> []
                 | s # rest \<Rightarrow>
                     if s = [] then rest
                     else if rest = [] \<or> rest = [[]] then
                       (if s = ''**'' then ss1 else ''**'' # ss1)
                     else ss1)
      in if ss2 = [''**'', []] then [''*'', ''**'']
         else if 1 < length ss2 \<and> last ss2 = [] then butlast ss2 @ [''**'']
         else ss2)"

definition compile_pattern :: "string \<Rightarrow> IgnoreRule option" where
  \<comment> \<open>Modelled from the spec: one line of the ignore file to one rule, or to none\<close>
  "compile_pattern line =
     (let pat = strip line in
      if pat = [] \<or> hd pat = CHR ''#'' \<or> pat = ''/'' then None
      else
        let neg = (hd pat = CHR ''!'');
            body = (if neg then tl pat else pat);
            ss0 = split CHR ''/'' body;
            ss = normalize_segs ss0
        in if ss = [] then None
           else Some \<lparr> raw = pat,
                       negated = neg,
                       dir_only = (last ss0 = []),
                       anchored = (1 < length (filter (\<lambda>s. s \<noteq> []) ss0) \<or> hd ss0 = []),
                       segs = ss \<rparr>)"

definition from_lines :: "string list \<Rightarrow> IgnoreRule list" where
  "from_lines pats = List.map_filter compile_pattern pats"

fun match_file_loop :: "bool \<Rightarrow> IgnoreRule list \<Rightarrow> string list \<Rightarrow> bool" where
  \<comment> \<open>Modelled from the spec: every rule is looked at, in order, and a rule that matches
      overwrites the verdict\<close>
  "match_file_loop matched [] f = matched"
| "match_file_loop matched (r # rs) f =
     match_file_loop (if match_segs (segs r) f then \<not> negated r else matched) rs f"

definition match_file :: "IgnoreRule list \<Rightarrow> string \<Rightarrow> bool" where
  \<comment> \<open>Modelled from the spec: the verdict for a root-relative path; \<open>True\<close> is excluded\<close>
  "match_file spec rel_path = match_file_loop False spec (split CHR ''/'' rel_path)"

section \<open>ProjectScanner (app.py, lines 107-194)\<close>

record ProjectScanner =
  root_dir :: pypath
  git_ignore_spec :: "IgnoreRule list"

definition load_gitignore :: "(py_error + string list) option \<Rightarrow> IgnoreRule list" where
  \<comment> \<open>the argument is what the root's \<open>.gitignore\<close> gives: \<open>None\<close> when it does not exist,
      the exception of \<open>open\<close> or \<open>readlines\<close>, or the lines read\<close>
  "load_gitignore gi =
     (let patterns = IGNORE_PATTERNS;
          patterns = (case gi of
                        None \<Rightarrow> patterns
                      | Some (Inl e) \<Rightarrow> patterns
                      | Some (Inr ls) \<Rightarrow> patterns @ ls)
      in from_lines patterns)"

definition ProjectScanner_init :: "pypath \<Rightarrow> (py_error + string list) option \<Rightarrow> ProjectScanner" where
  "ProjectScanner_init root gi = \<lparr> root_dir = root, git_ignore_spec = load_gitignore gi \<rparr>"

definition should_ignore :: "ProjectScanner \<Rightarrow> pypath \<Rightarrow> bool" where
  "should_ignore sc file_path =
     (case relative_to file_path (root_dir sc) of
        Inl e \<Rightarrow> True
      | Inr rel \<Rightarrow>
          if path_name file_path \<in> set IGNORE_PATTERNS then True
          else if match_file (git_ignore_spec sc) (as_posix rel) then True
          else False)"

text \<open>
  The directory tree that \<open>os.walk\<close> enumerates. The entries of a directory stand in the
  order in which the operating system lists them. \<open>Unlisted\<close> is a directory that
  \<open>os.walk\<close> names among the directories of its parent and yields nothing for: its
  listing raises an error, which \<open>os.walk\<close> swallows, or it is a symbolic link, which
  \<open>os.walk\<close> does not follow.
\<close>

datatype fs_entry = File string | Dir string "fs_entry list" | Unlisted string

fun entry_name :: "fs_entry \<Rightarrow> string" where
  "entry_name (File n) = n"
| "entry_name (Dir n sub) = n"
| "entry_name (Unlisted n) = n"

fun is_file :: "fs_entry \<Rightarrow> bool" where
  "is_file (File n) = True"
| "is_file (Dir n sub) = False"
| "is_file (Unlisted n) = False"

fun walk :: "ProjectScanner \<Rightarrow> pypath \<Rightarrow> fs_entry \<Rightarrow> pypath list" where
  \<comment> \<open>the body of \<open>scan\<close> for the directory at path \<open>cur\<close>, then for the directories kept
      in \<open>dirs\<close>, in order (lines 151-159)\<close>
  "walk sc cur (Dir n sub) =
     (let dirs = filter (\<lambda>d. \<not> is_file d \<and> \<not> should_ignore sc (cur @ [entry_name d])) sub;
          files = filter is_file sub
      in filter (\<lambda>p. \<not> should_ignore sc p) (map (\<lambda>f. cur @ [entry_name f]) files)
         @ concat (map (\<lambda>d. walk sc (cur @ [entry_name d]) d) dirs))"
| "walk sc cur (File n) = []"
| "walk sc cur (Unlisted n) = []"

definition scan :: "ProjectScanner \<Rightarrow> fs_entry \<Rightarrow> pypath list" where
  \<comment> \<open>the second argument is the tree at \<open>root_dir\<close>\<close>
  "scan sc tree = walk sc (root_dir sc) tree"

definition tree_paths :: "ProjectScanner \<Rightarrow> fs_entry \<Rightarrow> pypath list" where
  \<comment> \<open>line 166: \<open>sorted(list(self.scan()), key=lambda p: str(p))\<close>\<close>
  "tree_paths sc tree = sort_key path_str (scan sc tree)"

text \<open>
  The tree drawing (lines 170-194). The characters of the drawing lie outside the range
  of \<^typ>\<open>char\<close>; each is written as the bytes of its UTF-8 form.
\<close>

definition FOLDER :: string where
  "FOLDER = [CHR 0xF0, CHR 0x9F, CHR 0x93, CHR 0x82, CHR '' '']"

definition BRANCH :: string where
  "BRANCH = [CHR 0xE2, CHR 0x94, CHR 0x9C, CHR 0xE2, CHR 0x94, CHR 0x80, CHR 0xE2, CHR 0x94, CHR 0x80,
             CHR '' '']"

definition INDENT :: string where
  "INDENT = [CHR 0xE2, CHR 0x94, CHR 0x82, CHR '' '', CHR '' '', CHR '' '']"

definition tree_dir_step :: "pypath \<Rightarrow> string list \<times> pypath set \<Rightarrow> nat \<Rightarrow> string list \<times> pypath set" where
  \<comment> \<open>lines 183-188, on the pair of \<open>tree_lines\<close> and \<open>added_dirs\<close>\<close>
  "tree_dir_step parts st i =
     (let parent_parts = take (i + 1) parts in
      if parent_parts \<in> snd st then st
      else (fst st @ [concat (replicate i INDENT) @ BRANCH @ last parent_parts @ ''/''],
            insert parent_parts (snd st)))"

definition tree_file_step :: "string list \<times> pypath set \<Rightarrow> pypath \<Rightarrow> string list \<times> pypath set" where
  \<comment> \<open>lines 178-192, the loop body for one relative path\<close>
  "tree_file_step st parts =
     (let depth = length parts - 1;
          st1 = foldl (tree_dir_step parts) st [0..<depth]
      in (fst st1 @ [concat (replicate depth INDENT) @ BRANCH @ last parts], snd st1))"

definition generate_tree :: "ProjectScanner \<Rightarrow> fs_entry \<Rightarrow> string" where
  \<comment> \<open>the paths that \<open>scan\<close> yields lie under \<open>root_dir\<close>, so \<open>relative_to\<close> of line 171
      does not raise and drops the parts of the root\<close>
  "generate_tree sc tree =
     (let paths = tree_paths sc tree in
      if paths = [] then ''No files found.''
      else
        let rel_paths = map (drop (length (root_dir sc))) paths;
            st0 = ([FOLDER @ path_name (root_dir sc) @ ''/''], {})
        in join [NL] (fst (foldl tree_file_step st0 rel_paths)))"

section \<open>ReportGenerator and main (app.py, lines 266-389)\<close>

definition sorted_artifacts :: "ProjectSummary \<Rightarrow> FileArtifact list" where
  \<comment> \<open>line 287, the order in which \<open>generate\<close> writes the file sections; the Markdown
      text around them is not modelled\<close>
  "sorted_artifacts summary = sort_key relative_path (artifacts summary)"

text \<open>
  What a run of \<open>main\<close> meets: whether the root exists, the tree below it, the root's
  \<open>.gitignore\<close>, the files, how paths resolve, the order in which the futures of the
  worker pool complete (a rearrangement of the submitted paths), and the error that
  writing the report raises, if it raises one.
\<close>

record os_env =
  root_exists :: bool
  root_tree :: fs_entry
  gitignore :: "(py_error + string list) option"
  file_at :: "pypath \<Rightarrow> file_io"
  resolve :: "pypath \<Rightarrow> pypath"
  as_completed :: "pypath list \<Rightarrow> pypath list"
  write_error :: "py_error option"

definition files_to_process :: "os_env \<Rightarrow> pypath \<Rightarrow> pypath \<Rightarrow> pypath list" where
  \<comment> \<open>lines 339-342\<close>
  "files_to_process env root_path output_path =
     filter (\<lambda>f. resolve env f \<noteq> output_path)
       (scan (ProjectScanner_init root_path (gitignore env)) (root_tree env))"

definition gather :: "(pypath \<Rightarrow> file_io) \<Rightarrow> pypath \<Rightarrow> pypath list \<Rightarrow> FileArtifact list" where
  \<comment> \<open>lines 361-364: the loop over the completed futures appends every result that is
      not \<open>None\<close>\<close>
  "gather io root_path completed = List.map_filter (\<lambda>f. process io f root_path) completed"

definition collect :: "os_env \<Rightarrow> pypath \<Rightarrow> pypath list \<Rightarrow> FileArtifact list" where
  \<comment> \<open>lines 347-364: nothing is submitted for an empty list\<close>
  "collect env root_path fs =
     (if fs = [] then [] else gather (file_at env) root_path (as_completed env fs))"

definition aggregate :: "string \<Rightarrow> FileArtifact list \<Rightarrow> ProjectSummary" where
  \<comment> \<open>lines 372-378\<close>
  "aggregate tree arts =
     \<lparr> total_files = length arts,
       total_lines = sum_list (map lines arts),
       total_tokens = sum_list (map token_estimate arts),
       file_tree = tree,
       artifacts = arts \<rparr>"

record run_result =
  exit_status :: nat
  summary :: "ProjectSummary option"
  report_written :: bool

definition main :: "os_env \<Rightarrow> pypath \<Rightarrow> pypath \<Rightarrow> run_result" where
  \<comment> \<open>\<open>sys.exit(1)\<close> at line 326; a run that reaches the end of \<open>main\<close> leaves with
      status 0, also through the handler of line 388\<close>
  "main env root_path output_path =
     (if \<not> root_exists env then
        \<lparr> exit_status = 1, summary = None, report_written = False \<rparr>
      else
        let scanner = ProjectScanner_init root_path (gitignore env);
            tree = generate_tree scanner (root_tree env);
            fs = files_to_process env root_path output_path;
            arts = collect env root_path fs;
            s = aggregate tree arts
        in (case write_error env of
              None \<Rightarrow> \<lparr> exit_status = 0, summary = Some s, report_written = True \<rparr>
            | Some e \<Rightarrow> \<lparr> exit_status = 0, summary = Some s, report_written = False \<rparr>))"

section \<open>Concrete inputs\<close>

definition demo_root :: pypath where
  "demo_root = [''proj'']"

definition demo_line :: string where
  "demo_line = replicate 749 CHR ''x'' @ [NL]"

definition demo_big_text :: string where
  "demo_big_text = concat (replicate 2000 demo_line)"

definition demo_io :: "pypath \<Rightarrow> file_io" where
  "demo_io p =
     (if p = [''proj'', ''empty.txt''] then
        \<lparr> st_size = Inr 0, decoded_strict = Inr [], decoded_replace = Inr [] \<rparr>
      else if p = [''proj'', ''mac.txt''] then
        \<lparr> st_size = Inr 3, decoded_strict = Inr [CHR ''a'', CR, CHR ''b''],
          decoded_replace = Inr [CHR ''a'', CR, CHR ''b''] \<rparr>
      else if p = [''proj'', ''big.log''] then
        \<lparr> st_size = Inr 1500000, decoded_strict = Inr demo_big_text,
          decoded_replace = Inr demo_big_text \<rparr>
      else
        \<lparr> st_size = Inr 7, decoded_strict = Inr (''x = 1'' @ [NL] @ ''y''),
          decoded_replace = Inr (''x = 1'' @ [NL] @ ''y'') \<rparr>)"

definition demo_tree :: fs_entry where
  "demo_tree =
     Dir ''proj'' [File ''b.py'', File ''empty.txt'', Dir ''src'' [File ''a.py''],
                   Dir ''build'' [File ''out.py''], File ''a.py'']"

definition demo_env :: os_env where
  "demo_env =
     \<lparr> root_exists = True, root_tree = demo_tree, gitignore = None, file_at = demo_io,
       resolve = (\<lambda>p. p), as_completed = (\<lambda>fs. fs), write_error = None \<rparr>"

definition demo_output :: pypath where
  "demo_output = [''proj'', ''codebase_context.md'']"

definition demo_env_unwritable :: os_env where
  "demo_env_unwritable = demo_env \<lparr> write_error := Some OSError \<rparr>"

definition demo_log_rules :: "(py_error + string list) option" where
  "demo_log_rules = Some (Inr [''*.log'' @ [NL], ''!keep.log'' @ [NL]])"

definition demo_negating_rules :: "(py_error + string list) option" where
  "demo_negating_rules = Some (Inr [''!node_modules'' @ [NL]])"

definition demo_env_reversed :: os_env where
  "demo_env_reversed = demo_env \<lparr> as_completed := rev \<rparr>"

section \<open>Properties of the file processor\<close>

lemma process_Some_path:
  assumes "process io p root = Some a"
  shows "path a = p"
  using assms
  by (auto simp: process_def Let_def split: sum.splits if_splits option.splits prod.splits)


lemma process_zero_size:
  assumes "st_size (io p) = Inr 0"
  shows "process io p root = None"
  using assms by (simp add: process_def)

lemma gather_paths:
  "a \<in> set (gather io root completed) \<Longrightarrow> path a \<in> set completed \<and> process io (path a) root = Some a"
proof -
  assume "a \<in> set (gather io root completed)"
  then obtain f where f: "f \<in> set completed" "process io f root = Some a"
    by (auto simp: gather_def List.map_filter_def)
  then have "path a = f" by (simp add: process_Some_path)
  with f show ?thesis by simp
qed

lemma gather_removeAll:
  assumes "process io p root = None"
  shows "gather io root (removeAll p completed) = gather io root completed"
  using assms by (induction completed) (auto simp: gather_def List.map_filter_def)

lemma concat_readlines: "concat (readlines cs) = cs"
  by (induction cs) (auto split: list.splits)

text \<open>
  C9. A file of zero bytes gives no artifact: \<open>process\<close> returns nothing for it, no
  artifact gathered from the completed futures belongs to it, and the total file count
  is the same as if the file had not been submitted.
\<close>

theorem empty_file_skipped:
  assumes "st_size (io p) = Inr 0"
  shows "process io p root = None
       \<and> (\<forall>a \<in> set (gather io root completed). path a \<noteq> p)
       \<and> total_files (aggregate t (gather io root completed))
           = total_files (aggregate t (gather io root (removeAll p completed)))"
proof -
  have none: "process io p root = None"
    using assms by (rule process_zero_size)
  have absent: "\<forall>a \<in> set (gather io root completed). path a \<noteq> p"
  proof
    fix a assume "a \<in> set (gather io root completed)"
    then have "process io (path a) root = Some a" by (simp add: gather_paths)
    with none show "path a \<noteq> p" by auto
  qed
  from none have "gather io root (removeAll p completed) = gather io root completed"
    by (rule gather_removeAll)
  then show ?thesis using none absent by simp
qed

lemma universal_newlines_no_cr: "CR \<notin> set cs \<Longrightarrow> universal_newlines cs = cs"
  by (induction cs rule: universal_newlines.induct) auto

text \<open>
  A file of the three characters \<open>a\<close>, carriage return, \<open>b\<close> has no newline character
  in its original content; read in text mode it is two lines.
\<close>

theorem bare_carriage_return_is_a_line_break:
  "st_size (demo_io [''proj'', ''mac.txt'']) = Inr 3
   \<and> decoded_strict (demo_io [''proj'', ''mac.txt'']) = Inr [CHR ''a'', CR, CHR ''b'']
   \<and> count_char NL [CHR ''a'', CR, CHR ''b''] = 0
   \<and> map_option lines (process demo_io [''proj'', ''mac.txt''] demo_root) = Some 2
   \<and> map_option content (process demo_io [''proj'', ''mac.txt''] demo_root)
       = Some [CHR ''a'', NL, CHR ''b'']"
  by (simp add: process_def read_content_def read_strict_def demo_io_def demo_root_def
        relative_to_def MAX_FILE_SIZE_BYTES_def Let_def count_char_def)

text \<open>
  C7. A file of at most 1,000,000 bytes that is not empty and decodes, at a path under
  the root, becomes an artifact whose content is the original content with every line
  ending (carriage return and line feed, or a carriage return alone) turned into a line
  feed, not truncated. Its line count is one more than the number of newline
  characters of that content, and its token estimate is the length of that content
  divided by four, rounded down. For an original content without carriage returns,
  these are one more than the number of newline characters of the original content,
  and its length divided by four.
\<close>

theorem small_file_counts:
  assumes "st_size (io p) = Inr sz" and "0 < sz" and "sz \<le> 1000000"
    and "decoded_strict (io p) = Inr orig"
    and "prefix root p"
  shows "\<exists>a. process io p root = Some a
           \<and> content a = universal_newlines orig \<and> \<not> is_truncated a
           \<and> lines a = 1 + count_char NL (content a)
           \<and> token_estimate a = length (content a) div 4
           \<and> (CR \<notin> set orig \<longrightarrow>
                lines a = 1 + count_char NL orig \<and> token_estimate a = length orig div 4)"
  using assms
  by (simp add: process_def read_content_def read_strict_def relative_to_def Let_def
        MAX_FILE_SIZE_BYTES_def CHARS_PER_TOKEN_def universal_newlines_no_cr)


theorem empty_file_skipped_witness:
  "st_size (demo_io [''proj'', ''empty.txt'']) = Inr 0
   \<and> process demo_io [''proj'', ''empty.txt''] demo_root = None
   \<and> total_files (aggregate [] (gather demo_io demo_root
         [[''proj'', ''b.py''], [''proj'', ''empty.txt''], [''proj'', ''a.py'']]))
       = total_files (aggregate [] (gather demo_io demo_root
         [[''proj'', ''b.py''], [''proj'', ''a.py'']]))"
proof -
  have z: "st_size (demo_io [''proj'', ''empty.txt'']) = Inr 0"
    by (simp add: demo_io_def)
  show ?thesis
    using empty_file_skipped[of demo_io "[''proj'', ''empty.txt'']" demo_root
        "[[''proj'', ''b.py''], [''proj'', ''empty.txt''], [''proj'', ''a.py'']]" "[]"] z
    by simp
qed

theorem small_file_counts_witness:
  "\<exists>a. process demo_io [''proj'', ''a.py''] demo_root = Some a
       \<and> lines a = 2 \<and> token_estimate a = 1 \<and> content a = ''x = 1'' @ [NL] @ ''y''"
proof -
  let ?orig = "''x = 1'' @ [NL] @ ''y''"
  have u: "universal_newlines ?orig = ?orig"
    by (rule universal_newlines_no_cr) simp
  have "\<exists>a. process demo_io [''proj'', ''a.py''] demo_root = Some a
           \<and> content a = universal_newlines ?orig \<and> \<not> is_truncated a
           \<and> lines a = 1 + count_char NL (content a)
           \<and> token_estimate a = length (content a) div 4
           \<and> (CR \<notin> set ?orig \<longrightarrow>
                lines a = 1 + count_char NL ?orig \<and> token_estimate a = length ?orig div 4)"
    by (rule small_file_counts[of demo_io _ 7]) (simp_all add: demo_io_def demo_root_def)
  then obtain a where a: "process demo_io [''proj'', ''a.py''] demo_root = Some a"
     "content a = universal_newlines ?orig"
     "lines a = 1 + count_char NL (content a)"
     "token_estimate a = length (content a) div 4"
    by (elim exE conjE)
  have c: "content a = ?orig" using a(2) u by simp
  have "lines a = 2" unfolding a(3) c by (simp add: count_char_def)
  moreover have "token_estimate a = 1" unfolding a(4) c by simp
  ultimately show ?thesis using a(1) c by (intro exI[of _ a]) simp
qed








section \<open>Properties of the scanner\<close>

text \<open>
  C10. For a path that does not lie under the root, \<open>relative_to\<close> raises
  \<open>ValueError\<close> and \<open>should_ignore\<close> answers true.
\<close>

theorem should_ignore_outside_root:
  assumes "\<not> prefix (root_dir sc) p"
  shows "relative_to p (root_dir sc) = Inl ValueError \<and> should_ignore sc p"
  using assms by (simp add: should_ignore_def relative_to_def)

theorem should_ignore_outside_root_witness:
  "\<not> prefix (root_dir (ProjectScanner_init demo_root None)) [''other'', ''notes.txt'']
   \<and> should_ignore (ProjectScanner_init demo_root None) [''other'', ''notes.txt'']"
  using should_ignore_outside_root[of "ProjectScanner_init demo_root None" "[''other'', ''notes.txt'']"]
  by (simp add: ProjectScanner_init_def demo_root_def)



lemma main_summary:
  assumes "summary (main env root out) = Some s"
  shows "root_exists env
       \<and> s = aggregate (generate_tree (ProjectScanner_init root (gitignore env)) (root_tree env))
               (collect env root (files_to_process env root out))"
  using assms
  by (auto simp: main_def Let_def split: if_splits option.splits)


lemma demo_scan:
  "scan (ProjectScanner_init demo_root None) demo_tree
     = [[''proj'', ''b.py''], [''proj'', ''empty.txt''], [''proj'', ''a.py''], [''proj'', ''src'', ''a.py'']]"
  by code_simp

lemma demo_files: "files_to_process demo_env demo_root demo_output
     = [[''proj'', ''b.py''], [''proj'', ''empty.txt''], [''proj'', ''a.py''], [''proj'', ''src'', ''a.py'']]"
  by (simp add: files_to_process_def demo_env_def demo_scan demo_output_def)

lemma demo_artifacts:
  "map relative_path (collect demo_env demo_root (files_to_process demo_env demo_root demo_output))
     = [''b.py'', ''a.py'', ''src/a.py'']"
  unfolding demo_files
  by (simp add: collect_def gather_def List.map_filter_def demo_env_def process_def demo_io_def
        demo_root_def relative_to_def read_content_def read_strict_def MAX_FILE_SIZE_BYTES_def
        Let_def as_posix_def)



text \<open>
  The list that \<open>main\<close> hands to the worker pool (line 339) is in the order of the
  traversal, the files of a directory in the order of its listing: it is not sorted.
\<close>

theorem files_to_process_unsorted:
  "\<not> sorted (map path_str (files_to_process demo_env demo_root demo_output))"
  unfolding demo_files by code_simp

text \<open>
  C3. The path list of \<open>generate_tree\<close> (line 166) is sorted by the string form of the
  paths and holds the scanned paths, for every root, every ignore file and every tree,
  whatever the order of its listings.
\<close>

theorem tree_paths_sorted:
  "sorted (map path_str (tree_paths sc tree)) \<and> mset (tree_paths sc tree) = mset (scan sc tree)"
  by (simp add: tree_paths_def)

theorem tree_paths_sorted_witness:
  "sorted (map path_str (tree_paths (ProjectScanner_init demo_root None) demo_tree))
   \<and> map path_str (tree_paths (ProjectScanner_init demo_root None) demo_tree)
       = [''/proj/a.py'', ''/proj/b.py'', ''/proj/empty.txt'', ''/proj/src/a.py'']"
proof -
  have "map path_str (tree_paths (ProjectScanner_init demo_root None) demo_tree)
       = [''/proj/a.py'', ''/proj/b.py'', ''/proj/empty.txt'', ''/proj/src/a.py'']"
    unfolding tree_paths_def demo_scan by code_simp
  then show ?thesis
    using tree_paths_sorted[of "ProjectScanner_init demo_root None" demo_tree] by simp
qed

section \<open>Properties of the ignore rules\<close>

lemma match_file_loop_last:
  "match_file_loop m rs f =
     (case filter (\<lambda>r. match_segs (segs r) f) rs of
        [] \<Rightarrow> m
      | x # xs \<Rightarrow> \<not> negated (last (x # xs)))"
  by (induction rs arbitrary: m) (auto split: list.splits)

lemma log_rules_match:
  "match_file (load_gitignore demo_log_rules) ''a.log''"
  "\<not> match_file (load_gitignore demo_log_rules) ''keep.log''"
  by code_simp+

lemma log_names_not_builtin:
  "''a.log'' \<notin> set IGNORE_PATTERNS" "''keep.log'' \<notin> set IGNORE_PATTERNS"
  by (simp_all add: IGNORE_PATTERNS_def)

lemma should_ignore_child:
  "x \<noteq> [] \<Longrightarrow>
   should_ignore (ProjectScanner_init root gi) (root @ [x])
     = (x \<in> set IGNORE_PATTERNS \<or> match_file (load_gitignore gi) x)"
  by (simp add: should_ignore_def ProjectScanner_init_def relative_to_def as_posix_def path_name_def)

text \<open>
  C4. The verdict of the compiled rules is that of the last rule that matches the path,
  excluded for a plain rule and included for a negated one, and included when no rule
  matches. With an ignore file of the two lines \<open>*.log\<close> and \<open>!keep.log\<close>, the scanner
  rejects \<open>a.log\<close> and keeps \<open>keep.log\<close>, under every root.
\<close>

theorem last_matching_rule_decides:
  "match_file spec rel_path =
     (case filter (\<lambda>r. match_segs (segs r) (split CHR ''/'' rel_path)) spec of
        [] \<Rightarrow> False
      | x # xs \<Rightarrow> \<not> negated (last (x # xs)))
   \<and> should_ignore (ProjectScanner_init root demo_log_rules) (root @ [''a.log''])
   \<and> \<not> should_ignore (ProjectScanner_init root demo_log_rules) (root @ [''keep.log''])"
proof (intro conjI)
  show "match_file spec rel_path =
     (case filter (\<lambda>r. match_segs (segs r) (split CHR ''/'' rel_path)) spec of
        [] \<Rightarrow> False
      | x # xs \<Rightarrow> \<not> negated (last (x # xs)))"
    unfolding match_file_def by (rule match_file_loop_last)
  show "should_ignore (ProjectScanner_init root demo_log_rules) (root @ [''a.log''])"
    by (simp add: should_ignore_child log_rules_match)
  show "\<not> should_ignore (ProjectScanner_init root demo_log_rules) (root @ [''keep.log''])"
    by (simp add: should_ignore_child log_rules_match log_names_not_builtin)
qed

theorem last_matching_rule_decides_witness:
  "match_file (load_gitignore demo_log_rules) ''docs/keep.log'' = False
   \<and> should_ignore (ProjectScanner_init demo_root demo_log_rules) [''proj'', ''a.log'']
   \<and> \<not> should_ignore (ProjectScanner_init demo_root demo_log_rules) [''proj'', ''keep.log'']"
proof -
  have "\<not> match_file (load_gitignore demo_log_rules) ''docs/keep.log''"
    by code_simp
  then show ?thesis
    using last_matching_rule_decides[of "load_gitignore demo_log_rules" "''docs/keep.log''" demo_root]
    by (simp add: demo_root_def)
qed

text \<open>
  The test of the base name against \<open>IGNORE_PATTERNS\<close> (line 137) answers before the
  compiled rules are asked: a negated rule of the ignore file that re-admits a built-in
  name changes the verdict of the rules, not that of \<open>should_ignore\<close>.
\<close>

theorem fast_path_overrides_negation:
  "should_ignore (ProjectScanner_init demo_root demo_negating_rules) [''proj'', ''node_modules'']
   \<and> \<not> match_file (git_ignore_spec (ProjectScanner_init demo_root demo_negating_rules)) ''node_modules''"
  by code_simp

lemma split_nonempty: "split c s \<noteq> []"
  by (induction s) (auto split: list.splits)

lemma split_no_sep: "c \<notin> set s \<Longrightarrow> split c s = [s]"
  by (induction s) auto

lemma split_append_sep: "c \<notin> set x \<Longrightarrow> split c (x @ c # r) = x # split c r"
  by (induction x) (auto split: list.splits simp: split_nonempty)

lemma split_join:
  "xs \<noteq> [] \<Longrightarrow> \<forall>s\<in>set xs. CHR ''/'' \<notin> set s \<Longrightarrow> split CHR ''/'' (join ''/'' xs) = xs"
proof (induction xs rule: induct_list012)
  case (3 x y zs)
  then show ?case by (simp add: split_append_sep)
qed (simp_all add: split_no_sep)

lemma glob_star_skip: "glob ps s \<Longrightarrow> glob (CHR ''*'' # ps) s"
  by (cases s) auto

lemma glob_refl: "glob s s"
  by (induction s) (auto simp: glob_star_skip)

lemma match_seg_refl: "n \<noteq> [] \<Longrightarrow> match_seg n n"
  by (simp add: match_seg_def glob_refl)

lemma match_any_depth:
  assumes "f \<noteq> []" and "n \<noteq> ''**''" and "match_seg n (last f)"
  shows "match_segs [''**'', n] f"
proof -
  have "suffix [last f] f"
    using assms(1) by (metis append_butlast_last_id suffixI)
  then have "[last f] \<in> set (suffixes f)"
    by (simp add: in_set_suffixes)
  moreover have "match_segs [n] [last f]"
    using assms(2,3) by simp
  ultimately show ?thesis
    by (auto simp: list_ex_iff)
qed

lemma builtin_rules:
  "map segs (from_lines IGNORE_PATTERNS) = map (\<lambda>n. [''**'', n]) IGNORE_PATTERNS"
  by code_simp

lemma builtin_names: "\<forall>n\<in>set IGNORE_PATTERNS. n \<noteq> [] \<and> n \<noteq> ''**''"
  by (simp add: IGNORE_PATTERNS_def)

lemma from_lines_append: "from_lines (xs @ ys) = from_lines xs @ from_lines ys"
  by (simp add: from_lines_def List.map_filter_def)

lemma builtin_in_spec: "set (from_lines IGNORE_PATTERNS) \<subseteq> set (load_gitignore gi)"
  by (auto simp: load_gitignore_def from_lines_append Let_def split: option.splits sum.splits)

lemma loop_no_negation:
  "\<forall>r\<in>set rs. \<not> negated r \<Longrightarrow>
   match_file_loop m rs f = (m \<or> (\<exists>r\<in>set rs. match_segs (segs r) f))"
  by (induction rs arbitrary: m) auto

lemma builtin_name_matches:
  assumes "last f \<in> set IGNORE_PATTERNS" and "f \<noteq> []"
  shows "\<exists>r\<in>set (load_gitignore gi). match_segs (segs r) f"
proof -
  let ?n = "last f"
  have "[''**'', ?n] \<in> set (map segs (from_lines IGNORE_PATTERNS))"
    unfolding builtin_rules using assms(1) by simp
  then obtain r where r: "r \<in> set (from_lines IGNORE_PATTERNS)" "segs r = [''**'', ?n]"
    by auto
  have "match_segs [''**'', ?n] f"
    using assms builtin_names by (intro match_any_depth) (auto simp: match_seg_refl)
  with r builtin_in_spec show ?thesis by (metis subsetD)
qed

text \<open>
  C2. For a path below the root, \<open>should_ignore\<close> answers true exactly when the base
  name is one of the built-in patterns or the compiled rules exclude the path; so the
  fast path never re-admits a path that the rules exclude. When no rule of the compiled
  set is negated, the fast path does not change the verdict: a path whose base name is
  a built-in pattern is matched by that pattern's own rule.
\<close>

theorem fast_path_verdict:
  assumes "strict_prefix root p" and "\<forall>s\<in>set p. CHR ''/'' \<notin> set s"
  shows "should_ignore (ProjectScanner_init root gi) p
           = (path_name p \<in> set IGNORE_PATTERNS
              \<or> match_file (load_gitignore gi) (as_posix (drop (length root) p)))
       \<and> ((\<forall>r\<in>set (load_gitignore gi). \<not> negated r) \<longrightarrow>
            should_ignore (ProjectScanner_init root gi) p
              = match_file (load_gitignore gi) (as_posix (drop (length root) p)))"
proof -
  let ?rel = "drop (length root) p"
  from assms(1) have pre: "prefix root p" and ne: "?rel \<noteq> []"
    by (auto simp: strict_prefix_def prefix_def)
  have first: "should_ignore (ProjectScanner_init root gi) p
           = (path_name p \<in> set IGNORE_PATTERNS \<or> match_file (load_gitignore gi) (as_posix ?rel))"
    using pre by (simp add: should_ignore_def ProjectScanner_init_def relative_to_def)
  have second: "match_file (load_gitignore gi) (as_posix ?rel)"
    if nn: "\<forall>r\<in>set (load_gitignore gi). \<not> negated r" and b: "path_name p \<in> set IGNORE_PATTERNS"
  proof -
    have "\<forall>s\<in>set ?rel. CHR ''/'' \<notin> set s"
      using assms(2) by (meson in_set_dropD)
    then have sp: "split CHR ''/'' (as_posix ?rel) = ?rel"
      using ne by (simp add: as_posix_def split_join)
    have "last ?rel = path_name p"
      using ne by (auto simp: path_name_def)
    with b ne have "\<exists>r\<in>set (load_gitignore gi). match_segs (segs r) ?rel"
      by (simp add: builtin_name_matches)
    then show ?thesis
      unfolding match_file_def sp using loop_no_negation[OF nn] by simp
  qed
  show ?thesis
    using first second by auto
qed

theorem fast_path_verdict_witness:
  "strict_prefix demo_root [''proj'', ''lib'', ''node_modules'']
   \<and> match_file (load_gitignore None) ''lib/node_modules''
   \<and> should_ignore (ProjectScanner_init demo_root None) [''proj'', ''lib'', ''node_modules'']"
proof -
  have a: "strict_prefix demo_root [''proj'', ''lib'', ''node_modules'']"
    by (simp add: demo_root_def strict_prefix_def)
  have b: "\<forall>s\<in>set [''proj'', ''lib'', ''node_modules'']. CHR ''/'' \<notin> set s"
    by simp
  have c: "list_all (\<lambda>r. \<not> negated r) (load_gitignore None)"
    by code_simp
  have d: "as_posix (drop (length demo_root) [''proj'', ''lib'', ''node_modules'']) = ''lib/node_modules''"
    by (simp add: demo_root_def as_posix_def)
  have e: "path_name [''proj'', ''lib'', ''node_modules''] \<in> set IGNORE_PATTERNS"
    by (simp add: path_name_def IGNORE_PATTERNS_def)
  show ?thesis
    using fast_path_verdict[OF a b, of None] a c d e
    by (auto simp: list_all_iff)
qed

section \<open>Properties of a run\<close>

lemma main_exit_status:
  "exit_status (main env root out) = (if root_exists env then 0 else 1)"
  by (simp add: main_def Let_def split: option.splits)

text \<open>
  C5. A run whose root exists and whose report cannot be written reaches the handler of
  line 388, which logs the error; the run ends with status 0 and no report.
\<close>

theorem unwritable_output_exits_zero:
  "root_exists demo_env_unwritable
   \<and> write_error demo_env_unwritable = Some OSError
   \<and> exit_status (main demo_env_unwritable demo_root demo_output) = 0
   \<and> \<not> report_written (main demo_env_unwritable demo_root demo_output)"
  by (simp add: main_def Let_def demo_env_unwritable_def demo_env_def)

text \<open>
  The artifacts of the summary stand in the order in which the futures completed: with
  a pool that completes them in the order of submission, they are not sorted.
\<close>

theorem summary_artifacts_unsorted:
  "map_option (map relative_path \<circ> artifacts) (summary (main demo_env demo_root demo_output))
     = Some [''b.py'', ''a.py'', ''src/a.py'']
   \<and> \<not> sorted [''b.py'', ''a.py'', ''src/a.py'']"
proof -
  have "summary (main demo_env demo_root demo_output)
      = Some (aggregate (generate_tree (ProjectScanner_init demo_root (gitignore demo_env)) (root_tree demo_env))
               (collect demo_env demo_root (files_to_process demo_env demo_root demo_output)))"
    by (simp add: main_def demo_env_def Let_def)
  then have "map_option (map relative_path \<circ> artifacts) (summary (main demo_env demo_root demo_output))
     = Some [''b.py'', ''a.py'', ''src/a.py'']"
    by (simp add: aggregate_def demo_artifacts)
  moreover have "\<not> sorted [''b.py'', ''a.py'', ''src/a.py'']"
    by code_simp
  ultimately show ?thesis by simp
qed

lemma mset_map_filter:
  "mset xs = mset ys \<Longrightarrow> mset (List.map_filter f xs) = mset (List.map_filter f ys)"
proof -
  assume "mset xs = mset ys"
  then have "filter_mset (\<lambda>x. f x \<noteq> None) (mset xs) = filter_mset (\<lambda>x. f x \<noteq> None) (mset ys)"
    by simp
  then have "mset (filter (\<lambda>x. f x \<noteq> None) xs) = mset (filter (\<lambda>x. f x \<noteq> None) ys)"
    by (simp only: mset_filter)
  then have "image_mset (the \<circ> f) (mset (filter (\<lambda>x. f x \<noteq> None) xs))
           = image_mset (the \<circ> f) (mset (filter (\<lambda>x. f x \<noteq> None) ys))"
    by (rule arg_cong)
  then show ?thesis
    by (simp only: List.map_filter_def mset_map)
qed

lemma mset_gather:
  "mset xs = mset ys \<Longrightarrow> mset (gather io root xs) = mset (gather io root ys)"
  unfolding gather_def by (rule mset_map_filter)

lemma filter_key_single:
  "distinct (map f zs) \<Longrightarrow> k \<in> set zs \<Longrightarrow> filter (\<lambda>x. f k = f x) zs = [k]"
proof (induction zs)
  case (Cons z zs)
  show ?case
  proof (cases "k = z")
    case True
    have "filter (\<lambda>x. f z = f x) zs = []"
      using Cons.prems(1) by (auto simp: filter_empty_conv)
    with True show ?thesis by simp
  next
    case False
    with Cons.prems(2) have kz: "k \<in> set zs" by simp
    have "f z \<notin> f ` set zs" using Cons.prems(1) by simp
    with kz have "f k \<noteq> f z" by (metis imageI)
    with kz Cons show ?thesis by simp
  qed
qed simp

lemma sort_key_unique:
  assumes "mset xs = mset ys" and "distinct (map f xs)"
  shows "sort_key f xs = sort_key f ys"
proof (rule properties_for_sort_key)
  show "mset (sort_key f ys) = mset xs"
    using assms(1) by simp
  show "sorted (map f (sort_key f ys))"
    by simp
  fix k assume k: "k \<in> set (sort_key f ys)"
  have "mset (map f (sort_key f ys)) = mset (map f xs)"
    using assms(1) by simp
  from mset_eq_imp_distinct_iff[OF this] have d: "distinct (map f (sort_key f ys))"
    using assms(2) by simp
  have "set xs = set ys"
    using assms(1) by (rule mset_eq_setD)
  then have "k \<in> set xs"
    using k by simp
  then have "filter (\<lambda>x. f k = f x) xs = [k]"
    using assms(2) by (rule filter_key_single[rotated])
  moreover have "filter (\<lambda>x. f k = f x) (sort_key f ys) = [k]"
    using d k by (rule filter_key_single)
  ultimately show "filter (\<lambda>x. f k = f x) (sort_key f ys) = filter (\<lambda>x. f k = f x) xs"
    by simp
qed

lemma files_to_process_order:
  "files_to_process (env \<lparr> as_completed := ord \<rparr>) root out = files_to_process env root out"
  by (simp add: files_to_process_def)

lemma demo_artifacts_reversed:
  "map relative_path (collect demo_env_reversed demo_root (files_to_process demo_env demo_root demo_output))
     = [''src/a.py'', ''a.py'', ''b.py'']"
  unfolding demo_files
  by (simp add: collect_def gather_def List.map_filter_def demo_env_reversed_def demo_env_def
        process_def demo_io_def
        demo_root_def relative_to_def read_content_def read_strict_def MAX_FILE_SIZE_BYTES_def
        Let_def as_posix_def)

text \<open>
  C1. The order in which \<open>generate\<close> writes the artifacts (line 287) is sorted by
  relative path, holds the artifacts of the summary, and is the same for any two orders
  of completion of the same submitted files, the relative paths being distinct. The
  list stored in the summary is in the order of completion.
\<close>

theorem report_order_independent:
  assumes "mset (as_completed env (files_to_process env root out))
             = mset (files_to_process env root out)"
    and "mset (ord (files_to_process env root out)) = mset (files_to_process env root out)"
    and "summary (main env root out) = Some s1"
    and "summary (main (env \<lparr> as_completed := ord \<rparr>) root out) = Some s2"
    and "distinct (map relative_path (artifacts s1))"
  shows "sorted (map relative_path (sorted_artifacts s1))
       \<and> mset (sorted_artifacts s1) = mset (artifacts s1)
       \<and> sorted_artifacts s2 = sorted_artifacts s1"
proof -
  let ?fs = "files_to_process env root out"
  have a1: "artifacts s1 = collect env root ?fs"
    using main_summary[OF assms(3)] by (simp add: aggregate_def)
  have a2: "artifacts s2 = collect (env \<lparr> as_completed := ord \<rparr>) root ?fs"
    using main_summary[OF assms(4)] by (simp add: aggregate_def files_to_process_order)
  have "mset (as_completed env ?fs) = mset (ord ?fs)"
    using assms(1,2) by simp
  then have "mset (gather (file_at env) root (as_completed env ?fs))
           = mset (gather (file_at env) root (ord ?fs))"
    by (rule mset_gather)
  then have "mset (artifacts s1) = mset (artifacts s2)"
    unfolding a1 a2 by (simp add: collect_def)
  then have "sort_key relative_path (artifacts s1) = sort_key relative_path (artifacts s2)"
    using assms(5) by (rule sort_key_unique)
  then have "sorted_artifacts s2 = sorted_artifacts s1"
    by (simp add: sorted_artifacts_def)
  moreover have "sorted (map relative_path (sorted_artifacts s1))"
    by (simp add: sorted_artifacts_def)
  moreover have "mset (sorted_artifacts s1) = mset (artifacts s1)"
    by (simp add: sorted_artifacts_def)
  ultimately show ?thesis
    by (intro conjI)
qed

theorem report_order_independent_witness:
  "\<exists>s1 s2. summary (main demo_env demo_root demo_output) = Some s1
      \<and> summary (main demo_env_reversed demo_root demo_output) = Some s2
      \<and> map relative_path (artifacts s1) = [''b.py'', ''a.py'', ''src/a.py'']
      \<and> map relative_path (artifacts s2) = [''src/a.py'', ''a.py'', ''b.py'']
      \<and> sorted (map relative_path (sorted_artifacts s1))
      \<and> sorted_artifacts s2 = sorted_artifacts s1"
proof -
  let ?fs = "files_to_process demo_env demo_root demo_output"
  obtain s1 where s1: "summary (main demo_env demo_root demo_output) = Some s1"
    and arts1: "artifacts s1 = collect demo_env demo_root ?fs"
    by (simp add: main_def demo_env_def Let_def aggregate_def)
  obtain s2 where s2: "summary (main (demo_env \<lparr> as_completed := rev \<rparr>) demo_root demo_output) = Some s2"
    and arts2: "artifacts s2 = collect demo_env_reversed demo_root ?fs"
    by (simp add: main_def demo_env_reversed_def demo_env_def Let_def aggregate_def files_to_process_def)
  have r1: "map relative_path (artifacts s1) = [''b.py'', ''a.py'', ''src/a.py'']"
    by (simp add: arts1 demo_artifacts)
  have r2: "map relative_path (artifacts s2) = [''src/a.py'', ''a.py'', ''b.py'']"
    by (simp add: arts2 demo_artifacts_reversed)
  have d: "distinct (map relative_path (artifacts s1))"
    unfolding r1 by simp
  have p1: "mset (as_completed demo_env ?fs) = mset ?fs"
    by (simp add: demo_env_def)
  have p2: "mset (rev ?fs) = mset ?fs"
    by simp
  note main_result = report_order_independent[OF p1 p2 s1 s2 d]
  have c: "sorted (map relative_path (sorted_artifacts s1))"
    using main_result by (rule conjunct1)
  have e: "sorted_artifacts s2 = sorted_artifacts s1"
    using main_result by (elim conjE)
  show ?thesis
    unfolding demo_env_reversed_def
    by (rule exI[of _ s1], rule exI[of _ s2]) (intro conjI s1 s2 r1 r2 c e)
qed

end
